theory Spec2Isabelle
  imports Main
begin

section \<open>Geometry primitives (geometry.py)\<close>

text \<open>The four cardinal directions; \<open>vec\<close> is the enum member's value, a unit vector
  with the y axis pointing down.\<close>

datatype Direction = UP | DOWN | LEFT | RIGHT

fun vec :: "Direction \<Rightarrow> int \<times> int" where
  "vec UP = (0, -1)"
| "vec DOWN = (0, 1)"
| "vec LEFT = (-1, 0)"
| "vec RIGHT = (1, 0)"

fun opposite :: "Direction \<Rightarrow> Direction" where
  "opposite UP = DOWN"
| "opposite DOWN = UP"
| "opposite LEFT = RIGHT"
| "opposite RIGHT = LEFT"

text \<open>\<open>Direction.all()\<close>: the order is the order of every neighbour enumeration.\<close>

definition Direction_all :: "Direction list" where
  "Direction_all = [UP, DOWN, LEFT, RIGHT]"

definition from_vector :: "int \<Rightarrow> int \<Rightarrow> Direction option" where
  "from_vector dx dy =
     (if dx = 1 \<and> dy = 0 then Some RIGHT
      else if dx = -1 \<and> dy = 0 then Some LEFT
      else if dx = 0 \<and> dy = 1 then Some DOWN
      else if dx = 0 \<and> dy = -1 then Some UP
      else None)"

section \<open>Cell and Maze (mazegen.py)\<close>

datatype Symmetry = NONE | HORIZONTAL | VERTICAL | ROTATIONAL | BOTH

text \<open>A cell object. Its coordinates are the key under which the grid holds it, so the
  record keeps the mutable attributes the generator reads and writes: the wall set, the
  visited mark and the two classification flags.\<close>

record Cell =
  walls :: "Direction set"
  visited :: bool
  is_intersection :: bool
  is_dead_end :: bool

text \<open>\<open>Cell.__init__\<close>: a new cell has an empty wall set.\<close>

definition new_cell :: Cell where
  "new_cell = \<lparr>walls = {}, visited = False, is_intersection = False, is_dead_end = False\<rparr>"

definition has_wall :: "Cell \<Rightarrow> Direction \<Rightarrow> bool" where
  "has_wall c d = (d \<in> walls c)"

definition wall_count :: "Cell \<Rightarrow> int" where
  "wall_count c = int (card (walls c))"

definition exit_count :: "Cell \<Rightarrow> int" where
  "exit_count c = 4 - int (card (walls c))"

text \<open>\<open>Cell.is_corner\<close>: exactly two walls, and the two are not opposite each other. The
  source takes the two members of the set in iteration order and compares the opposite
  of the first with the second; the test does not depend on that order.\<close>

definition is_corner :: "Cell \<Rightarrow> bool" where
  "is_corner c =
     (if card (walls c) \<noteq> 2 then False
      else (\<exists>a \<in> set Direction_all. \<exists>b \<in> set Direction_all.
              a \<noteq> b \<and> a \<in> walls c \<and> b \<in> walls c \<and> opposite a \<noteq> b))"

text \<open>The maze object. \<open>cells\<close> is the dense \<open>width \<times> height\<close> array \<open>cells[x][y]\<close>,
  modelled as a function of the coordinates: the source reads and writes it only at
  coordinates inside the grid (every access is behind the range test of \<open>get_cell\<close>, the
  modulo of the wrap mode, or a loop over \<open>range(width)\<close> and \<open>range(height)\<close>).\<close>

record Maze =
  width :: int
  height :: int
  wrap :: bool
  symmetry :: Symmetry
  cells :: "int \<times> int \<Rightarrow> Cell"

datatype error = ValueError | AttributeError

text \<open>\<open>Maze.__init__\<close>: the fields are assigned, then the dimensions are validated
  against the symmetry; a failed validation raises, so the caller gets no object.\<close>

definition Maze_init :: "int \<Rightarrow> int \<Rightarrow> bool \<Rightarrow> Symmetry \<Rightarrow> error + Maze" where
  "Maze_init w h wr sy =
     (if sy \<in> set [HORIZONTAL, ROTATIONAL, BOTH] \<and> w mod 2 \<noteq> 0 then Inl ValueError
      else if sy \<in> set [VERTICAL, ROTATIONAL, BOTH] \<and> h mod 2 \<noteq> 0 then Inl ValueError
      else Inr \<lparr>width = w, height = h, wrap = wr, symmetry = sy, cells = (\<lambda>p. new_cell)\<rparr>)"

text \<open>\<open>Maze.get_cell\<close>: a cell is named by its position, \<open>None\<close> is the source's
  \<open>None\<close>. In wrap mode the coordinates are reduced modulo the dimensions (Python's
  \<open>%\<close> and HOL's \<open>mod\<close> agree on a positive modulus). A grid with a non-positive
  dimension has no cell at all: there the wrapped lookup of the source raises
  (division by zero, or an index into an empty list), and the model answers \<open>None\<close>.\<close>

definition get_cell :: "Maze \<Rightarrow> int \<Rightarrow> int \<Rightarrow> (int \<times> int) option" where
  "get_cell m x y =
     (if wrap m then
        (if 0 < width m \<and> 0 < height m then Some (x mod width m, y mod height m) else None)
      else if x < 0 \<or> x \<ge> width m \<or> y < 0 \<or> y \<ge> height m then None
      else Some (x, y))"

definition get_neighbor :: "Maze \<Rightarrow> int \<times> int \<Rightarrow> Direction \<Rightarrow> (int \<times> int) option" where
  "get_neighbor m cell direction =
     (case vec direction of (dx, dy) \<Rightarrow> get_cell m (fst cell + dx) (snd cell + dy))"

text \<open>\<open>Cell.remove_wall\<close> on the cell at a position (\<open>set.discard\<close>: removing an absent
  wall changes nothing).\<close>

definition remove_wall :: "Maze \<Rightarrow> int \<times> int \<Rightarrow> Direction \<Rightarrow> Maze" where
  "remove_wall m p d = m\<lparr>cells := (cells m)(p := (cells m p)\<lparr>walls := walls (cells m p) - {d}\<rparr>)\<rparr>"

definition remove_wall_between :: "Maze \<Rightarrow> int \<times> int \<Rightarrow> int \<times> int \<Rightarrow> Maze" where
  "remove_wall_between m cell1 cell2 =
     (let dx = fst cell2 - fst cell1; dy = snd cell2 - snd cell1 in
      case from_vector dx dy of
        None \<Rightarrow>
          (if wrap m then
             (if dx = width m - 1 \<and> dy = 0 then
                remove_wall (remove_wall m cell1 LEFT) cell2 RIGHT
              else if dx = - (width m - 1) \<and> dy = 0 then
                remove_wall (remove_wall m cell1 RIGHT) cell2 LEFT
              else if dx = 0 \<and> dy = height m - 1 then
                remove_wall (remove_wall m cell1 UP) cell2 DOWN
              else if dx = 0 \<and> dy = - (height m - 1) then
                remove_wall (remove_wall m cell1 DOWN) cell2 UP
              else m)
           else m)
      | Some direction \<Rightarrow>
          remove_wall (remove_wall m cell1 direction) cell2 (opposite direction))"

text \<open>\<open>Maze._get_symmetric_cell\<close>: the positions of the orbit, the position itself first.\<close>

definition get_symmetric_cell :: "Maze \<Rightarrow> int \<Rightarrow> int \<Rightarrow> (int \<times> int) list" where
  "get_symmetric_cell m x y =
     (let mirror_x = width m - 1 - x; mirror_y = height m - 1 - y in
      case symmetry m of
        NONE \<Rightarrow> [(x, y)]
      | HORIZONTAL \<Rightarrow> [(x, y)] @ (if mirror_x \<noteq> x then [(mirror_x, y)] else [])
      | VERTICAL \<Rightarrow> [(x, y)] @ (if mirror_y \<noteq> y then [(x, mirror_y)] else [])
      | ROTATIONAL \<Rightarrow>
          [(x, y)] @ (if mirror_x \<noteq> x \<or> mirror_y \<noteq> y then [(mirror_x, mirror_y)] else [])
      | BOTH \<Rightarrow>
          [(x, y)] @ (if mirror_x \<noteq> x then [(mirror_x, y)] else [])
                   @ (if mirror_y \<noteq> y then [(x, mirror_y)] else [])
                   @ (if mirror_x \<noteq> x \<and> mirror_y \<noteq> y then [(mirror_x, mirror_y)] else []))"

text \<open>The direction list that \<open>_apply_symmetric_wall_removal\<close> computes for one orbit
  position: the branch on \<open>dx_transform\<close> comes first, the branch on \<open>dy_transform\<close> is
  its \<open>elif\<close>.\<close>

definition symmetric_directions :: "int \<times> int \<Rightarrow> int \<times> int \<Rightarrow> Direction \<Rightarrow> Direction list" where
  "symmetric_directions cell pos direction =
     (if pos = cell then [direction]
      else
        (let dx_transform = fst pos - fst cell; dy_transform = snd pos - snd cell in
         if dx_transform \<noteq> 0 then
           (if direction = LEFT then [RIGHT]
            else if direction = RIGHT then [LEFT]
            else [direction])
         else if dy_transform \<noteq> 0 then
           (if direction = UP then [DOWN]
            else if direction = DOWN then [UP]
            else [direction])
         else [direction]))"

text \<open>\<open>Maze._apply_symmetric_wall_removal\<close>: the two nested loops, over the orbit
  positions and over the directions of each.\<close>

definition apply_symmetric_wall_removal :: "Maze \<Rightarrow> int \<times> int \<Rightarrow> Direction \<Rightarrow> Maze" where
  "apply_symmetric_wall_removal m cell direction =
     fold (\<lambda>pos m1.
             case get_cell m1 (fst pos) (snd pos) of
               None \<Rightarrow> m1
             | Some base_cell \<Rightarrow>
                 fold (\<lambda>sym_dir m2.
                         case get_neighbor m2 base_cell sym_dir of
                           None \<Rightarrow> m2
                         | Some neighbor \<Rightarrow> remove_wall_between m2 base_cell neighbor)
                      (symmetric_directions cell pos direction) m1)
          (get_symmetric_cell m (fst cell) (snd cell)) m"

section \<open>The pseudorandom source\<close>

text \<open>The generator draws all its randomness from one source. Its state is modelled as
  the sequence of numbers it will deliver; \<open>randbelow\<close> takes the next one and reduces
  it below the bound (an exhausted source delivers 0). \<open>random.choice\<close> draws an index
  below the length of the list; the source only calls it on a non-empty list.\<close>

type_synonym rng = "nat list"

fun randbelow :: "rng \<Rightarrow> nat \<Rightarrow> nat \<times> rng" where
  "randbelow [] n = (0, [])"
| "randbelow (k # ks) n = (k mod n, ks)"

definition choice :: "rng \<Rightarrow> 'a list \<Rightarrow> 'a \<times> rng" where
  "choice r xs = (case randbelow r (length xs) of (i, r') \<Rightarrow> (xs ! i, r'))"

section \<open>Depth-first generation (Maze.generate)\<close>

text \<open>The cells in the order of the nested loops \<open>for x in range(width): for y in
  range(height)\<close>.\<close>

definition positions :: "Maze \<Rightarrow> (int \<times> int) list" where
  "positions m = concat (map (\<lambda>x. map (\<lambda>y. (x, y)) [0..height m - 1]) [0..width m - 1])"

definition in_grid :: "Maze \<Rightarrow> int \<times> int \<Rightarrow> bool" where
  "in_grid m p = (0 \<le> fst p \<and> fst p < width m \<and> 0 \<le> snd p \<and> snd p < height m)"

text \<open>The first loop of \<open>generate\<close>: every cell unvisited and walled on all four sides.\<close>

definition reset_cells :: "Maze \<Rightarrow> Maze" where
  "reset_cells m =
     fold (\<lambda>p m1. m1\<lparr>cells := (cells m1)(p := (cells m1 p)\<lparr>walls := set Direction_all, visited := False\<rparr>)\<rparr>)
          (positions m) m"

definition mark_visited :: "Maze \<Rightarrow> int \<times> int \<Rightarrow> Maze" where
  "mark_visited m p = m\<lparr>cells := (cells m)(p := (cells m p)\<lparr>visited := True\<rparr>)\<rparr>"

text \<open>The neighbours of the current cell that exist and are not visited, each with the
  direction that leads to it, in the order of \<open>Direction.all()\<close>.\<close>

definition unvisited_neighbors :: "Maze \<Rightarrow> int \<times> int \<Rightarrow> ((int \<times> int) \<times> Direction) list" where
  "unvisited_neighbors m current =
     concat (map (\<lambda>direction.
                    case get_neighbor m current direction of
                      None \<Rightarrow> []
                    | Some neighbor \<Rightarrow>
                        if \<not> visited (cells m neighbor) then [(neighbor, direction)] else [])
                 Direction_all)"

section \<open>Wall removal only strips walls\<close>

text \<open>Two grids have the same shape when they agree on the construction parameters.
  \<open>strip R\<close> removes from every cell \<open>p\<close> the walls \<open>R p\<close>. Every carving operation of the
  generator is a \<open>strip\<close> whose set depends on the shape and the arguments only, not on
  the walls standing.\<close>

definition same_shape :: "Maze \<Rightarrow> Maze \<Rightarrow> bool" where
  "same_shape m m' = (width m = width m' \<and> height m = height m' \<and> wrap m = wrap m'
                       \<and> symmetry m = symmetry m')"

definition strip :: "(int \<times> int \<Rightarrow> Direction set) \<Rightarrow> Maze \<Rightarrow> Maze" where
  "strip R m = m\<lparr>cells := (\<lambda>p. (cells m p)\<lparr>walls := walls (cells m p) - R p\<rparr>)\<rparr>"

lemma strip_shape [simp]: "same_shape (strip R m) m' = same_shape m m'"
  by (simp add: strip_def same_shape_def)

lemma same_shape_refl [simp]: "same_shape m m"
  by (simp add: same_shape_def)

lemma strip_strip: "strip R (strip S m) = strip (\<lambda>p. S p \<union> R p) m"
  by (simp add: strip_def fun_eq_iff Diff_eq Int_assoc)

lemma strip_empty: "strip (\<lambda>p. {}) m = m"
  by (simp add: strip_def)

lemma remove_wall_strip: "remove_wall m p d = strip (\<lambda>q. if q = p then {d} else {}) m"
  by (cases m) (auto simp add: remove_wall_def strip_def fun_eq_iff)

definition strips :: "(Maze \<Rightarrow> Maze) \<Rightarrow> Maze \<Rightarrow> bool" where
  "strips f m = (\<exists>R. \<forall>m'. same_shape m' m \<longrightarrow> f m' = strip R m')"

lemma strips_id: "strips (\<lambda>m'. m') m"
  unfolding strips_def by (rule exI[of _ "\<lambda>p. {}"]) (simp add: strip_empty)

lemma strips_remove_wall: "strips (\<lambda>m'. remove_wall m' p d) m"
  unfolding strips_def by (rule exI[of _ "\<lambda>q. if q = p then {d} else {}"]) (simp add: remove_wall_strip)

lemma strips_comp:
  assumes "strips f m" and "strips g m"
  shows "strips (\<lambda>m'. g (f m')) m"
proof -
  from assms obtain R S where
    R: "\<And>m'. same_shape m' m \<Longrightarrow> f m' = strip R m'" and
    S: "\<And>m'. same_shape m' m \<Longrightarrow> g m' = strip S m'"
    unfolding strips_def by blast
  have "g (f m') = strip (\<lambda>p. R p \<union> S p) m'" if "same_shape m' m" for m'
    using that by (simp add: R S strip_strip)
  then show ?thesis unfolding strips_def by blast
qed

lemma strips_cong:
  assumes "\<And>m'. same_shape m' m \<Longrightarrow> f m' = g m'" and "strips g m"
  shows "strips f m"
  using assms unfolding strips_def by metis

lemma strips_two: "strips (\<lambda>m'. remove_wall (remove_wall m' a d1) b d2) m"
  by (rule strips_comp[OF strips_remove_wall strips_remove_wall])

lemma strips_remove_wall_between: "strips (\<lambda>m'. remove_wall_between m' a b) m"
proof (cases "from_vector (fst b - fst a) (snd b - snd a)")
  case (Some d)
  show ?thesis
    by (rule strips_cong[OF _ strips_two[of a d b "opposite d"]])
       (simp add: remove_wall_between_def Some)
next
  case None
  let ?dx = "fst b - fst a" and ?dy = "snd b - snd a"
  consider (off) "\<not> wrap m"
    | (l) "wrap m" "?dx = width m - 1 \<and> ?dy = 0"
    | (r) "wrap m" "\<not> (?dx = width m - 1 \<and> ?dy = 0)" "?dx = - (width m - 1) \<and> ?dy = 0"
    | (u) "wrap m" "\<not> (?dx = width m - 1 \<and> ?dy = 0)" "\<not> (?dx = - (width m - 1) \<and> ?dy = 0)"
          "?dx = 0 \<and> ?dy = height m - 1"
    | (d) "wrap m" "\<not> (?dx = width m - 1 \<and> ?dy = 0)" "\<not> (?dx = - (width m - 1) \<and> ?dy = 0)"
          "\<not> (?dx = 0 \<and> ?dy = height m - 1)" "?dx = 0 \<and> ?dy = - (height m - 1)"
    | (none) "wrap m" "\<not> (?dx = width m - 1 \<and> ?dy = 0)" "\<not> (?dx = - (width m - 1) \<and> ?dy = 0)"
          "\<not> (?dx = 0 \<and> ?dy = height m - 1)" "\<not> (?dx = 0 \<and> ?dy = - (height m - 1))"
    by blast
  then show ?thesis
  proof cases
    case off
    show ?thesis
      by (intro strips_cong[OF _ strips_id])
         (use None off in \<open>auto simp: remove_wall_between_def Let_def same_shape_def\<close>)
  next
    case l
    show ?thesis
      by (intro strips_cong[OF _ strips_two[of a LEFT b RIGHT]])
         (use None l in \<open>auto simp: remove_wall_between_def Let_def same_shape_def\<close>)
  next
    case r
    show ?thesis
      by (intro strips_cong[OF _ strips_two[of a RIGHT b LEFT]])
         (use None r in \<open>auto simp: remove_wall_between_def Let_def same_shape_def\<close>)
  next
    case u
    show ?thesis
      by (intro strips_cong[OF _ strips_two[of a UP b DOWN]])
         (use None u in \<open>auto simp: remove_wall_between_def Let_def same_shape_def\<close>)
  next
    case d
    show ?thesis
      by (intro strips_cong[OF _ strips_two[of a DOWN b UP]])
         (use None d in \<open>auto simp: remove_wall_between_def Let_def same_shape_def\<close>)
  next
    case none
    show ?thesis
      by (intro strips_cong[OF _ strips_id])
         (use None none in \<open>auto simp: remove_wall_between_def Let_def same_shape_def\<close>)
  qed
qed

lemma strips_fold:
  assumes "\<And>x. x \<in> set xs \<Longrightarrow> strips (f x) m"
  shows "strips (\<lambda>m'. fold f xs m') m"
  using assms
proof (induction xs)
  case Nil
  then show ?case by (simp add: strips_id)
next
  case (Cons x xs)
  have "strips (\<lambda>m'. fold f xs (f x m')) m"
    by (rule strips_comp) (use Cons in auto)
  then show ?case by simp
qed

lemma get_cell_shape: "same_shape m' m \<Longrightarrow> get_cell m' x y = get_cell m x y"
  by (simp add: get_cell_def same_shape_def)

lemma get_neighbor_shape: "same_shape m' m \<Longrightarrow> get_neighbor m' c d = get_neighbor m c d"
  by (simp add: get_neighbor_def get_cell_shape split: prod.splits)

lemma get_symmetric_cell_shape:
  "same_shape m' m \<Longrightarrow> get_symmetric_cell m' x y = get_symmetric_cell m x y"
  by (simp add: get_symmetric_cell_def same_shape_def)

lemma strips_carve_step:
  "strips (\<lambda>m2. case get_neighbor m2 base sym_dir of None \<Rightarrow> m2
                 | Some neighbor \<Rightarrow> remove_wall_between m2 base neighbor) m"
proof (cases "get_neighbor m base sym_dir")
  case None
  then show ?thesis
    by (intro strips_cong[OF _ strips_id]) (simp add: get_neighbor_shape)
next
  case (Some n)
  then show ?thesis
    by (intro strips_cong[OF _ strips_remove_wall_between[of base n]]) (simp add: get_neighbor_shape)
qed

lemma strips_carve_pos:
  "strips (\<lambda>m1. case get_cell m1 (fst pos) (snd pos) of None \<Rightarrow> m1
                 | Some base_cell \<Rightarrow>
                     fold (\<lambda>sym_dir m2. case get_neighbor m2 base_cell sym_dir of None \<Rightarrow> m2
                              | Some neighbor \<Rightarrow> remove_wall_between m2 base_cell neighbor)
                          ds m1) m"
proof (cases "get_cell m (fst pos) (snd pos)")
  case None
  then show ?thesis
    by (intro strips_cong[OF _ strips_id]) (simp add: get_cell_shape)
next
  case (Some bc)
  have "strips (\<lambda>m1. fold (\<lambda>sym_dir m2. case get_neighbor m2 bc sym_dir of None \<Rightarrow> m2
                              | Some neighbor \<Rightarrow> remove_wall_between m2 bc neighbor) ds m1) m"
    by (rule strips_fold) (rule strips_carve_step)
  then show ?thesis
    by (rule strips_cong[rotated]) (simp add: get_cell_shape Some)
qed

lemma strips_apply_symmetric_wall_removal:
  "strips (\<lambda>m'. apply_symmetric_wall_removal m' cell direction) m"
proof -
  let ?f = "\<lambda>pos m1. case get_cell m1 (fst pos) (snd pos) of None \<Rightarrow> m1
                 | Some base_cell \<Rightarrow>
                     fold (\<lambda>sym_dir m2. case get_neighbor m2 base_cell sym_dir of None \<Rightarrow> m2
                              | Some neighbor \<Rightarrow> remove_wall_between m2 base_cell neighbor)
                          (symmetric_directions cell pos direction) m1"
  have "strips (\<lambda>m'. fold ?f (get_symmetric_cell m (fst cell) (snd cell)) m') m"
    by (rule strips_fold) (rule strips_carve_pos)
  then show ?thesis
    by (rule strips_cong[rotated])
       (simp add: apply_symmetric_wall_removal_def get_symmetric_cell_shape)
qed

text \<open>What a strip and a visit mark leave alone.\<close>

lemma visited_strip [simp]: "visited (cells (strip R m) p) = visited (cells m p)"
  by (simp add: strip_def)

lemma walls_strip [simp]: "walls (cells (strip R m) p) = walls (cells m p) - R p"
  by (simp add: strip_def)

lemma shape_strip [simp]:
  "width (strip R m) = width m" "height (strip R m) = height m"
  "wrap (strip R m) = wrap m" "symmetry (strip R m) = symmetry m"
  by (simp_all add: strip_def)

lemma apply_symmetric_wall_removal_strip:
  "\<exists>R. apply_symmetric_wall_removal m cell direction = strip R m"
  using strips_apply_symmetric_wall_removal[of cell direction m] unfolding strips_def
  by (metis same_shape_refl)

lemma in_grid_strip [simp]: "in_grid (strip R m) p = in_grid m p"
  by (simp add: in_grid_def)

lemma shape_mark_visited [simp]:
  "width (mark_visited m p) = width m" "height (mark_visited m p) = height m"
  "wrap (mark_visited m p) = wrap m" "symmetry (mark_visited m p) = symmetry m"
  by (simp_all add: mark_visited_def)

lemma in_grid_mark_visited [simp]: "in_grid (mark_visited m q) p = in_grid m p"
  by (simp add: in_grid_def)

lemma visited_mark_visited [simp]:
  "visited (cells (mark_visited m q) p) = (p = q \<or> visited (cells m p))"
  by (simp add: mark_visited_def)

lemma walls_mark_visited [simp]: "walls (cells (mark_visited m q) p) = walls (cells m p)"
  by (simp add: mark_visited_def)

section \<open>The carving loop\<close>

text \<open>The cells of the grid not yet visited: their number drops with every cell the loop
  pushes, and the stack shrinks with every cell it pops.\<close>

definition unvisited :: "Maze \<Rightarrow> (int \<times> int) set" where
  "unvisited m = {p. in_grid m p \<and> \<not> visited (cells m p)}"

lemma finite_in_grid: "finite {p. in_grid m p}"
proof -
  have "{p. in_grid m p} \<subseteq> {0..<width m} \<times> {0..<height m}"
    by (auto simp: in_grid_def)
  then show ?thesis by (rule finite_subset) simp
qed

lemma finite_unvisited: "finite (unvisited m)"
  by (rule finite_subset[OF _ finite_in_grid[of m]]) (auto simp: unvisited_def)

lemma get_cell_in_grid: "get_cell m x y = Some p \<Longrightarrow> in_grid m p"
  by (auto simp: get_cell_def in_grid_def split: if_splits)

lemma get_neighbor_in_grid: "get_neighbor m c d = Some p \<Longrightarrow> in_grid m p"
  by (auto simp: get_neighbor_def split: prod.splits dest: get_cell_in_grid)

lemma unvisited_neighbors_iff:
  "(n, d) \<in> set (unvisited_neighbors m c) \<longleftrightarrow>
     get_neighbor m c d = Some n \<and> \<not> visited (cells m n)"
  by (cases d; cases n) (auto simp: unvisited_neighbors_def Direction_all_def split: option.splits)

lemma randbelow_less: "0 < n \<Longrightarrow> fst (randbelow r n) < n"
  by (cases r) auto

lemma choice_in_set: "xs \<noteq> [] \<Longrightarrow> fst (choice r xs) \<in> set xs"
  using randbelow_less[of "length xs" r]
  by (auto simp: choice_def split: prod.splits)

lemma unvisited_step:
  assumes "(n, d) \<in> set (unvisited_neighbors m c)"
  shows "card (unvisited (mark_visited (apply_symmetric_wall_removal m c d) n)) < card (unvisited m)"
proof -
  obtain R where R: "apply_symmetric_wall_removal m c d = strip R m"
    using apply_symmetric_wall_removal_strip by blast
  from assms have n: "in_grid m n" "\<not> visited (cells m n)"
    by (auto simp: unvisited_neighbors_iff dest: get_neighbor_in_grid)
  have "unvisited (mark_visited (strip R m) n) \<subset> unvisited m"
    using n by (auto simp: unvisited_def)
  then show ?thesis
    unfolding R by (rule psubset_card_mono[OF finite_unvisited])
qed

function dfs_loop :: "Maze \<Rightarrow> (int \<times> int) list \<Rightarrow> rng \<Rightarrow> Maze \<times> rng" where
  "dfs_loop m [] r = (m, r)"
| "dfs_loop m (current # stack) r =
     (let neighbors = unvisited_neighbors m current in
      if neighbors \<noteq> [] then
        (case choice r neighbors of
           ((neighbor, direction), r') \<Rightarrow>
             dfs_loop (mark_visited (apply_symmetric_wall_removal m current direction) neighbor)
                      (neighbor # current # stack) r')
      else dfs_loop m stack r)"
  by pat_completeness auto
termination
proof (relation "measures [\<lambda>(m, stack, r). card (unvisited m), \<lambda>(m, stack, r). length stack]")
  show "wf (measures [\<lambda>(m, stack, r). card (unvisited m), \<lambda>(m, stack, r). length stack])"
    by simp
next
  fix m :: Maze and current stack r neighbors x1 r' neighbor direction
  assume a: "neighbors = unvisited_neighbors m current" "neighbors \<noteq> []"
    "(x1, r') = choice r neighbors" "(neighbor, direction) = x1"
  then have "(neighbor, direction) \<in> set (unvisited_neighbors m current)"
    using choice_in_set[of neighbors r] by (metis fst_conv)
  from unvisited_step[OF this]
  show "((mark_visited (apply_symmetric_wall_removal m current direction) neighbor,
          neighbor # current # stack, r'), m, current # stack, r)
        \<in> measures [\<lambda>(m, stack, r). card (unvisited m), \<lambda>(m, stack, r). length stack]"
    by simp
next
  fix m :: Maze and current stack r neighbors
  show "((m, stack, r), m, current # stack, r)
        \<in> measures [\<lambda>(m, stack, r). card (unvisited m), \<lambda>(m, stack, r). length stack]"
    by simp
qed


text \<open>The state of the grid when the carving loop has ended: the start is clamped when a
  symmetry is active, the cells are reset, the start cell is looked up (a missing start
  cell makes \<open>start_cell.visited = True\<close> raise), and the loop runs from the stack that
  holds the start cell alone.\<close>

definition dfs_carve :: "Maze \<Rightarrow> int \<Rightarrow> int \<Rightarrow> rng \<Rightarrow> error + Maze \<times> rng" where
  "dfs_carve m start_x start_y r =
     (let sx = (if symmetry m \<noteq> NONE then min start_x (width m div 2) else start_x);
          sy = (if symmetry m \<noteq> NONE then min start_y (height m div 2) else start_y);
          m0 = reset_cells m
      in case get_cell m0 sx sy of
           None \<Rightarrow> Inl AttributeError
         | Some start_cell \<Rightarrow> Inr (dfs_loop (mark_visited m0 start_cell) [start_cell] r))"

text \<open>The base cell that the reconciliation pass looks up for an unvisited cell.\<close>

definition base_cell_of :: "Maze \<Rightarrow> int \<Rightarrow> int \<Rightarrow> (int \<times> int) option" where
  "base_cell_of m x y =
     (let base_x = (if x < width m div 2 then x else width m - 1 - x);
          base_y = (if y < height m div 2 then y else height m - 1 - y)
      in case symmetry m of
           NONE \<Rightarrow> None
         | HORIZONTAL \<Rightarrow> get_cell m base_x y
         | VERTICAL \<Rightarrow> get_cell m x base_y
         | ROTATIONAL \<Rightarrow> get_cell m base_x base_y
         | BOTH \<Rightarrow> get_cell m base_x base_y)"

definition reconcile_cell :: "int \<times> int \<Rightarrow> Maze \<Rightarrow> Maze" where
  "reconcile_cell p m =
     (if \<not> visited (cells m p) then
        (case base_cell_of m (fst p) (snd p) of
           None \<Rightarrow> m
         | Some base_cell \<Rightarrow>
             if visited (cells m base_cell) then
               m\<lparr>cells := (cells m)(p := (cells m p)\<lparr>walls := walls (cells m base_cell), visited := True\<rparr>)\<rparr>
             else m)
      else m)"

definition reconcile_symmetry :: "Maze \<Rightarrow> Maze" where
  "reconcile_symmetry m =
     (if symmetry m \<noteq> NONE then fold reconcile_cell (positions m) m else m)"

text \<open>\<open>Maze._analyze_cells\<close>.\<close>

definition analyze_cells :: "Maze \<Rightarrow> Maze" where
  "analyze_cells m =
     fold (\<lambda>p m1. m1\<lparr>cells := (cells m1)(p := (cells m1 p)
                        \<lparr>is_intersection := exit_count (cells m1 p) > 2,
                         is_dead_end := exit_count (cells m1 p) = 1\<rparr>)\<rparr>)
          (positions m) m"

text \<open>\<open>Maze._remove_dead_ends\<close>. The inner loop over the directions stops at the first
  wall, other than the exit, whose neighbour has two exits or more; that wall is removed
  and the sweep is flagged as changed.\<close>

fun connect_dead_end :: "Maze \<Rightarrow> int \<times> int \<Rightarrow> Direction \<Rightarrow> Direction list \<Rightarrow> Maze \<times> bool" where
  "connect_dead_end m cell exit_dir [] = (m, False)"
| "connect_dead_end m cell exit_dir (direction # ds) =
     (if direction \<noteq> exit_dir \<and> has_wall (cells m cell) direction then
        (case get_neighbor m cell direction of
           None \<Rightarrow> connect_dead_end m cell exit_dir ds
         | Some neighbor \<Rightarrow>
             if exit_count (cells m neighbor) \<ge> 2 then (remove_wall_between m cell neighbor, True)
             else connect_dead_end m cell exit_dir ds)
      else connect_dead_end m cell exit_dir ds)"

definition dead_end_cell :: "int \<times> int \<Rightarrow> Maze \<times> bool \<Rightarrow> Maze \<times> bool" where
  "dead_end_cell cell s =
     (case s of (m, changed) \<Rightarrow>
        if exit_count (cells m cell) = 1 then
          (case find (\<lambda>direction. \<not> has_wall (cells m cell) direction) Direction_all of
             None \<Rightarrow> (m, changed)
           | Some exit_dir \<Rightarrow>
               (case connect_dead_end m cell exit_dir Direction_all of
                  (m1, c) \<Rightarrow> (m1, changed \<or> c)))
        else (m, changed))"

definition dead_end_sweep :: "Maze \<Rightarrow> Maze \<times> bool" where
  "dead_end_sweep m = fold dead_end_cell (positions m) (m, False)"

text \<open>The \<open>while changed\<close> loop: sweeps are repeated until one reports no change. The
  result is \<open>None\<close> when the loop never ends.\<close>

partial_function (option) remove_dead_ends :: "Maze \<Rightarrow> Maze option" where
  "remove_dead_ends m =
     (case dead_end_sweep m of
        (m1, changed) \<Rightarrow> if changed then remove_dead_ends m1 else Some m1)"

text \<open>\<open>Maze.generate\<close>: carving, reconciliation, analysis, dead-end removal.\<close>

definition generate :: "Maze \<Rightarrow> int \<Rightarrow> int \<Rightarrow> rng \<Rightarrow> (error + Maze \<times> rng) option" where
  "generate m start_x start_y r =
     (case dfs_carve m start_x start_y r of
        Inl e \<Rightarrow> Some (Inl e)
      | Inr (m1, r') \<Rightarrow>
          (case remove_dead_ends (analyze_cells (reconcile_symmetry m1)) of
             None \<Rightarrow> None
           | Some m2 \<Rightarrow> Some (Inr (m2, r'))))"

text \<open>The wall sets of the grid as a value that can be compared: the walls of each cell
  listed in the order of \<open>Direction.all()\<close>, the cells in the order of \<open>positions\<close>.\<close>

definition wall_list :: "Maze \<Rightarrow> int \<times> int \<Rightarrow> Direction list" where
  "wall_list m p = filter (has_wall (cells m p)) Direction_all"

definition wall_layout :: "Maze \<Rightarrow> Direction list list" where
  "wall_layout m = map (wall_list m) (positions m)"

section \<open>Running the model on a concrete grid\<close>

text \<open>Each loop of the generator takes one step when the facts that decide the step
  are known. With these rules the simplifier runs the model on a concrete grid, every
  intermediate grid computed once.\<close>

lemma dfs_loop_push:
  assumes "unvisited_neighbors m current = nb" "nb \<noteq> []" "choice r nb = ((n, d), r')"
    "mark_visited (apply_symmetric_wall_removal m current d) n = m'"
  shows "dfs_loop m (current # stack) r = dfs_loop m' (n # current # stack) r'"
  unfolding assms(4)[symmetric] using assms(1-3)
  by (subst dfs_loop.simps(2)) (simp add: Let_def del: dfs_loop.simps)

lemma dfs_loop_pop:
  assumes "unvisited_neighbors m current = []"
  shows "dfs_loop m (current # stack) r = dfs_loop m stack r"
  using assms by (subst dfs_loop.simps(2)) (simp add: Let_def del: dfs_loop.simps)

lemma remove_dead_ends_again:
  "dead_end_sweep m = (m1, True) \<Longrightarrow> remove_dead_ends m = remove_dead_ends m1"
  by (subst remove_dead_ends.simps) simp

lemma remove_dead_ends_done:
  "dead_end_sweep m = (m1, False) \<Longrightarrow> remove_dead_ends m = Some m1"
  by (subst remove_dead_ends.simps) simp

lemma generate_eval:
  assumes "dfs_carve m sx sy r = Inr (m1, r')" "reconcile_symmetry m1 = m2" "analyze_cells m2 = m3"
    "remove_dead_ends m3 = Some m4"
  shows "generate m sx sy r = Some (Inr (m4, r'))"
  using assms by (simp add: generate_def)

lemmas eval_defs = dfs_carve_def reset_cells_def positions_def upto.simps
  unvisited_neighbors_def Direction_all_def get_neighbor_def get_cell_def choice_def
  apply_symmetric_wall_removal_def get_symmetric_cell_def symmetric_directions_def
  remove_wall_between_def from_vector_def remove_wall_def mark_visited_def
  reconcile_symmetry_def reconcile_cell_def base_cell_of_def analyze_cells_def exit_count_def
  dead_end_sweep_def dead_end_cell_def has_wall_def wall_list_def wall_layout_def Let_def
  new_cell_def insert_Diff_if
  dfs_loop_push dfs_loop_pop remove_dead_ends_again remove_dead_ends_done generate_eval

section \<open>Construction validation\<close>

text \<open>Claim C5. Constructing an 8 by 8 grid with horizontal symmetry succeeds and keeps the
  dimensions as given; width 7 with horizontal symmetry fails. In general construction
  fails with the validation error exactly when the symmetry constrains an axis whose
  dimension is odd (width for horizontal, rotational and both; height for vertical,
  rotational and both); otherwise it yields the grid with the dimensions as supplied,
  never adjusted. A failure is the error alone: no grid comes with it.\<close>

theorem Maze_init_validation:
  "(\<exists>m. Maze_init 8 8 wr HORIZONTAL = Inr m \<and> width m = 8 \<and> height m = 8)
   \<and> Maze_init 7 h wr HORIZONTAL = Inl ValueError
   \<and> ((sy \<in> {HORIZONTAL, ROTATIONAL, BOTH} \<and> odd w) \<or> (sy \<in> {VERTICAL, ROTATIONAL, BOTH} \<and> odd h)
        \<longrightarrow> Maze_init w h wr sy = Inl ValueError)
   \<and> (\<not> ((sy \<in> {HORIZONTAL, ROTATIONAL, BOTH} \<and> odd w) \<or> (sy \<in> {VERTICAL, ROTATIONAL, BOTH} \<and> odd h))
        \<longrightarrow> Maze_init w h wr sy =
              Inr \<lparr>width = w, height = h, wrap = wr, symmetry = sy, cells = (\<lambda>p. new_cell)\<rparr>)"
  by (auto simp: Maze_init_def odd_iff_mod_2_eq_one)

theorem Maze_init_validation_witness:
  "Maze_init 7 8 False HORIZONTAL = Inl ValueError
   \<and> Maze_init 8 7 True BOTH = Inl ValueError
   \<and> Maze_init 6 4 True ROTATIONAL =
       Inr \<lparr>width = 6, height = 4, wrap = True, symmetry = ROTATIONAL, cells = (\<lambda>p. new_cell)\<rparr>"
  using Maze_init_validation [of False 8 HORIZONTAL 7]
        Maze_init_validation [of True 7 BOTH 8]
        Maze_init_validation [of True 4 ROTATIONAL 6]
  by simp

section \<open>Idempotence of the symmetric carve\<close>

text \<open>Claim C7. The symmetric wall removal is idempotent: for every grid, cell and
  direction, applying \<open>_apply_symmetric_wall_removal\<close> a second time with the same
  arguments leaves the grid as the first application left it; and removing a wall that
  is already removed changes nothing.\<close>

theorem apply_symmetric_wall_removal_idempotent:
  "apply_symmetric_wall_removal (apply_symmetric_wall_removal m cell direction) cell direction
     = apply_symmetric_wall_removal m cell direction
   \<and> remove_wall (remove_wall m cell direction) cell direction = remove_wall m cell direction"
proof -
  obtain R where R: "\<And>m'. same_shape m' m \<Longrightarrow> apply_symmetric_wall_removal m' cell direction = strip R m'"
    using strips_apply_symmetric_wall_removal[of cell direction m] unfolding strips_def by blast
  have "apply_symmetric_wall_removal (strip R m) cell direction = strip R (strip R m)"
    by (rule R) simp
  then have "apply_symmetric_wall_removal (apply_symmetric_wall_removal m cell direction) cell direction
     = apply_symmetric_wall_removal m cell direction"
    by (simp add: R strip_strip)
  moreover have "remove_wall (remove_wall m cell direction) cell direction = remove_wall m cell direction"
    by (simp add: remove_wall_strip strip_strip)
  ultimately show ?thesis by simp
qed

section \<open>The dead-end loop on a wrapped grid of width two\<close>

text \<open>On the wrapped 2 by 2 grid the carving loop, with a source that always delivers 0,
  leaves the walls below. The cell (0, 0) is a dead end whose upper neighbour, through
  the wrap, is (0, 1); \<open>remove_wall_between\<close> sees the two cells one step apart
  downwards and removes the wall that is already gone.\<close>

definition wrap_2x2 :: Maze where
  "wrap_2x2 = \<lparr>width = 2, height = 2, wrap = True, symmetry = NONE, cells = (\<lambda>p. new_cell)\<rparr>"

definition stuck_grid :: "Maze \<Rightarrow> bool" where
  "stuck_grid m = (width m = 2 \<and> height m = 2 \<and> wrap m
     \<and> walls (cells m (0, 0)) = {UP, LEFT, RIGHT} \<and> walls (cells m (0, 1)) = {DOWN, LEFT}
     \<and> walls (cells m (1, 0)) = {UP, LEFT, RIGHT} \<and> walls (cells m (1, 1)) = {DOWN, RIGHT})"

lemma positions_2x2: "width m = 2 \<Longrightarrow> height m = 2 \<Longrightarrow> positions m = [(0,0),(0,1),(1,0),(1,1)]"
  by (simp add: positions_def upto.simps)

lemma dead_end_sweep_stuck:
  assumes "stuck_grid m"
  shows "dead_end_sweep m = (m, True)"
proof -
  note defs = stuck_grid_def dead_end_cell_def exit_count_def has_wall_def Direction_all_def
        get_neighbor_def get_cell_def remove_wall_between_def from_vector_def remove_wall_def fun_eq_iff
  have c00: "dead_end_cell (0,0) (m, False) = (m, True)"
    using assms by (cases m) (simp add: defs)
  have c01: "dead_end_cell (0,1) (m, True) = (m, True)"
    using assms by (cases m) (simp add: defs)
  have c10: "dead_end_cell (1,0) (m, True) = (m, True)"
    using assms by (cases m) (simp add: defs)
  have c11: "dead_end_cell (1,1) (m, True) = (m, True)"
    using assms by (cases m) (simp add: defs)
  have "positions m = [(0,0),(0,1),(1,0),(1,1)]"
    using assms by (simp add: positions_2x2 stuck_grid_def)
  then show ?thesis
    by (simp add: dead_end_sweep_def c00 c01 c10 c11)
qed

lemmas remove_dead_ends_induct =
  remove_dead_ends.raw_induct[rotated 1, consumes 1, case_names sweep]

lemma remove_dead_ends_stuck:
  assumes "remove_dead_ends m = Some m'"
  shows "\<not> stuck_grid m"
  using assms
proof (induction m m' rule: remove_dead_ends_induct)
  case (sweep loop m m')
  show ?case
  proof
    assume "stuck_grid m"
    with sweep show False by (simp add: dead_end_sweep_stuck)
  qed
qed

lemma stuck_after_carve:
  "\<exists>m1 r. dfs_carve wrap_2x2 0 0 [] = Inr (m1, r) \<and> stuck_grid (analyze_cells (reconcile_symmetry m1))"
proof -
  let ?res = "dfs_carve wrap_2x2 0 0 []"
  have "\<not> isl ?res \<and> stuck_grid (analyze_cells (reconcile_symmetry (fst (projr ?res))))"
    by (simp add: wrap_2x2_def stuck_grid_def eval_defs del: dfs_loop.simps(2))
  then show ?thesis
    by (cases ?res) auto
qed

text \<open>Claim C4, at the input where the code departs from it. \<open>Maze(2, 2, wrap=True)\<close> is
  constructed without error. After the carving loop (every draw 0), reconciliation and
  analysis, one full sweep of \<open>_remove_dead_ends\<close> returns the grid exactly as it was
  and yet reports a change; so the \<open>while changed\<close> loop never ends, and neither does
  \<open>generate\<close>.\<close>

theorem dead_end_loop_diverges:
  "Maze_init 2 2 True NONE = Inr wrap_2x2
   \<and> (\<exists>m1 r. dfs_carve wrap_2x2 0 0 [] = Inr (m1, r)
         \<and> dead_end_sweep (analyze_cells (reconcile_symmetry m1))
             = (analyze_cells (reconcile_symmetry m1), True)
         \<and> remove_dead_ends (analyze_cells (reconcile_symmetry m1)) = None)
   \<and> generate wrap_2x2 0 0 [] = None"
proof -
  obtain m1 r where carve: "dfs_carve wrap_2x2 0 0 [] = Inr (m1, r)"
    and stuck: "stuck_grid (analyze_cells (reconcile_symmetry m1))"
    using stuck_after_carve by blast
  have none: "remove_dead_ends (analyze_cells (reconcile_symmetry m1)) = None"
    using remove_dead_ends_stuck[of "analyze_cells (reconcile_symmetry m1)"] stuck
    by (cases "remove_dead_ends (analyze_cells (reconcile_symmetry m1))") auto
  have "Maze_init 2 2 True NONE = Inr wrap_2x2"
    by (simp add: Maze_init_def wrap_2x2_def)
  moreover have "generate wrap_2x2 0 0 [] = None"
    by (simp add: generate_def carve none)
  ultimately show ?thesis
    using carve none dead_end_sweep_stuck[OF stuck] by blast
qed

end
